theory Spec2Isabelle
  imports Main "HOL-Library.Word" "HOL-Library.Monad_Syntax" "HOL-Library.Multiset"
begin

unbundle bit_operations_syntax

section \<open>Bytes, slices and run-time panics\<close>

text \<open>
  A Go \<^verbatim>\<open>[]byte\<close> is a list of 8-bit words; \<^verbatim>\<open>nil\<close> and the empty slice are both
  \<open>[]\<close> (the code only ever takes their length).  A function that can hit a run-time
  panic (an index out of range) returns an \<open>option\<close>: \<open>None\<close> is the panic,
  \<open>Some r\<close> is a normal return of \<open>r\<close>.  A returned Go \<^verbatim>\<open>error\<close> is the left
  summand of a sum, \<^verbatim>\<open>nil\<close> error with a value is the right summand.
\<close>

type_synonym byte = "8 word"
type_synonym uint16 = "16 word"
type_synonym uint32 = "32 word"

text \<open>\<^verbatim>\<open>xs[i]\<close> as an expression: panics when \<open>i\<close> is not below the length.\<close>

definition index :: "'a list \<Rightarrow> nat \<Rightarrow> 'a option" where
  "index xs i = (if i < length xs then Some (xs ! i) else None)"

text \<open>\<^verbatim>\<open>xs[i] = v\<close> as an assignment: panics when \<open>i\<close> is not below the length.\<close>

definition store :: "'a list \<Rightarrow> nat \<Rightarrow> 'a \<Rightarrow> 'a list option" where
  "store xs i v = (if i < length xs then Some (xs[i := v]) else None)"

text \<open>
  \<^verbatim>\<open>binary.BigEndian.PutUint16(b[off:], v)\<close>: the library checks \<^verbatim>\<open>b[1]\<close> first, then
  writes the high byte and the low byte.
\<close>

definition PutUint16 :: "byte list \<Rightarrow> nat \<Rightarrow> uint16 \<Rightarrow> byte list option" where
  "PutUint16 b off v =
     (if off + 1 < length b
      then Some (b[off := ucast (drop_bit 8 v), off + 1 := ucast v])
      else None)"

text \<open>\<^verbatim>\<open>binary.BigEndian.Uint16(b[off:])\<close>.\<close>

definition Uint16 :: "byte list \<Rightarrow> nat \<Rightarrow> uint16 option" where
  "Uint16 b off =
     (if off + 1 < length b
      then Some (ucast (b ! (off + 1)) OR push_bit 8 (ucast (b ! off)))
      else None)"

text \<open>
  \<^verbatim>\<open>copy(dst[off:], src)\<close>: copies \<open>min (len dst - off) (len src)\<close> bytes and returns
  the updated destination together with the number of bytes copied.
\<close>

definition copy_at :: "'a list \<Rightarrow> nat \<Rightarrow> 'a list \<Rightarrow> 'a list \<times> nat" where
  "copy_at dst off src =
     (let n = min (length dst - off) (length src)
      in (take off dst @ take n src @ drop (off + n) dst, n))"

section \<open>Exceptions and errors\<close>

text \<open>A Modbus exception is its code byte (\<^verbatim>\<open>Exception(adu[8])\<close>, \<^verbatim>\<open>newException(0x01)\<close>).\<close>

datatype exception = Exception (Code: byte)

definition ExIllegalFunction :: exception where "ExIllegalFunction = Exception 0x01"
definition ExIllegalDataAddress :: exception where "ExIllegalDataAddress = Exception 0x02"
definition ExIllegalDataValue :: exception where "ExIllegalDataValue = Exception 0x03"
definition ExSlaveDeviceFailure :: exception where "ExSlaveDeviceFailure = Exception 0x04"

text \<open>
  The error values of \<^verbatim>\<open>error.go\<close>, the anonymous \<^verbatim>\<open>"modbus: invalid request"\<close> of
  \<^verbatim>\<open>decode\<close>, an exception returned as an error, \<^verbatim>\<open>context.Canceled\<close>, and the
  errors of the transport (told apart by a number).
\<close>

datatype error =
    ErrInvalidRequest
  | ErrMismatchedTransactionId
  | ErrMismatchedProtocolId
  | ErrMismatchedUnitId
  | ErrDataSizeExceeded
  | ErrInvalidParameter
  | ErrException exception
  | Canceled
  | ErrIO nat

section \<open>The TCP framer (framer.go)\<close>

record tcp =
  transId :: uint32

definition buffer :: "byte list" where
  "buffer = replicate 260 0"

text \<open>
  \<^verbatim>\<open>encode\<close>: the size check comes before the counter is touched; otherwise the counter
  is incremented atomically and its new value, truncated to 16 bits, is the transaction id.
\<close>

definition encode :: "tcp \<Rightarrow> byte \<Rightarrow> byte \<Rightarrow> byte list \<Rightarrow> ((error + byte list) \<times> tcp) option" where
  "encode s uid code data =
     (if length data > 252 then Some (Inl ErrDataSizeExceeded, s)
      else do {
        let s' = s\<lparr>transId := transId s + 1\<rparr>;
        adu \<leftarrow> PutUint16 buffer 0 (ucast (transId s'));
        adu \<leftarrow> PutUint16 adu 4 (2 + of_nat (length data));
        adu \<leftarrow> store adu 6 uid;
        adu \<leftarrow> store adu 7 code;
        let (adu, n) = copy_at adu 8 data;
        Some (Inr (take (8 + n) adu), s')
      })"

text \<open>
  \<^verbatim>\<open>decode\<close>: a function code with the high bit set is returned as the exception whose
  code is \<^verbatim>\<open>adu[8]\<close>; that read is guarded only by \<^verbatim>\<open>len(adu) < 8\<close>.
\<close>

definition decode :: "byte list \<Rightarrow> (error + byte \<times> byte \<times> byte list) option" where
  "decode adu =
     (if length adu < 8 then Some (Inl ErrInvalidRequest)
      else do {
        c \<leftarrow> index adu 7;
        if c \<ge> 0x80 then do {
          e \<leftarrow> index adu 8;
          Some (Inl (ErrException (Exception e)))
        } else do {
          u \<leftarrow> index adu 6;
          Some (Inr (u, c, drop 8 adu))
        }
      })"

text \<open>
  \<^verbatim>\<open>a[i] != b[i] || a[j] != b[j]\<close>: Go evaluates left to right and short-circuits, so the
  second pair is read only when the first pair is equal.
\<close>

definition differ2 :: "byte list \<Rightarrow> byte list \<Rightarrow> nat \<Rightarrow> nat \<Rightarrow> bool option" where
  "differ2 a b i j = do {
     x \<leftarrow> index a i;
     y \<leftarrow> index b i;
     if x \<noteq> y then Some True
     else do {
       x' \<leftarrow> index a j;
       y' \<leftarrow> index b j;
       Some (x' \<noteq> y')
     }
   }"

text \<open>\<^verbatim>\<open>verify\<close>: \<open>Inr ()\<close> is the \<^verbatim>\<open>nil\<close> error.\<close>

definition verify :: "byte list \<Rightarrow> byte list \<Rightarrow> (error + unit) option" where
  "verify req res = do {
     t \<leftarrow> differ2 req res 0 1;
     if t then Some (Inl ErrMismatchedTransactionId)
     else do {
       p \<leftarrow> differ2 req res 2 3;
       if p then Some (Inl ErrMismatchedProtocolId)
       else do {
         u \<leftarrow> index req 6;
         if u = 0 then Some (Inr ())
         else do {
           u' \<leftarrow> index req 6;
           v \<leftarrow> index res 6;
           if u' \<noteq> v then Some (Inl ErrMismatchedUnitId) else Some (Inr ())
         }
       }
     }
   }"

text \<open>\<^verbatim>\<open>reply\<close>: encode, then copy the transaction id of the request over bytes 0 and 1.\<close>

definition reply :: "tcp \<Rightarrow> byte \<Rightarrow> byte \<Rightarrow> byte list \<Rightarrow> byte list \<Rightarrow> ((error + byte list) \<times> tcp) option" where
  "reply s uid code data req = do {
     (r, s') \<leftarrow> encode s uid code data;
     case r of
       Inl err \<Rightarrow> Some (Inl err, s')
     | Inr res \<Rightarrow> do {
         a \<leftarrow> index req 0;
         b \<leftarrow> index req 1;
         res \<leftarrow> store res 0 a;
         res \<leftarrow> store res 1 b;
         Some (Inr res, s')
       }
   }"

section \<open>Byte helpers of the handler\<close>

text \<open>\<^verbatim>\<open>byteCount\<close>: the addition is a \<^verbatim>\<open>uint16\<close> addition and wraps.\<close>

definition byteCount :: "uint16 \<Rightarrow> nat" where
  "byteCount bitCount = unat ((bitCount + 7) div 8)"

text \<open>
  \<^verbatim>\<open>bytesToBools\<close>: the inner loop over \<open>j = 0..7\<close> of one byte \<open>x\<close> at position \<open>i\<close>.
  The flag says that the loop returned from the function (\<^verbatim>\<open>len(buf) == k\<close>).  The
  index \<open>k\<close> runs through 0, 1, 2, ... and the loop leaves as soon as it reaches the length,
  so the store is always in range.
\<close>

fun bytesToBools_bits :: "nat list \<Rightarrow> nat \<Rightarrow> byte \<Rightarrow> bool list \<Rightarrow> bool list \<times> bool" where
  "bytesToBools_bits [] i x buf = (buf, False)"
| "bytesToBools_bits (j # js) i x buf =
     (let k = 8 * i + j
      in if length buf = k then (buf, True)
         else bytesToBools_bits js i x (buf[k := (push_bit j x AND 0x80 = 0x80)]))"

fun bytesToBools_bytes :: "(nat \<times> byte) list \<Rightarrow> bool list \<Rightarrow> bool list" where
  "bytesToBools_bytes [] buf = buf"
| "bytesToBools_bytes ((i, x) # rest) buf =
     (case bytesToBools_bits [0..<8] i x buf of
        (buf', True) \<Rightarrow> buf'
      | (buf', False) \<Rightarrow> bytesToBools_bytes rest buf')"

definition bytesToBools :: "uint16 \<Rightarrow> byte list \<Rightarrow> bool list" where
  "bytesToBools quantity bytes =
     bytesToBools_bytes (enumerate 0 bytes) (replicate (unat quantity) False)"

text \<open>
  \<^verbatim>\<open>put\<close> allocates \<^verbatim>\<open>new\<close> and moves a suffix slice \<^verbatim>\<open>buf\<close> over it.  The model
  keeps the allocated bytes and the offset \<open>off\<close> with \<^verbatim>\<open>buf = new[off:]\<close>.
\<close>

datatype arg =
    ArgBool bool
  | ArgBoolS "bool list"
  | ArgByte byte
  | ArgByteS "byte list"
  | ArgUint16 uint16
  | ArgUint16S "uint16 list"

type_synonym cursor = "byte list \<times> nat"

definition putUint16 :: "cursor \<Rightarrow> uint16 \<Rightarrow> cursor option" where
  "putUint16 c v = (case c of (new, off) \<Rightarrow> do {
     new' \<leftarrow> PutUint16 new off v;
     Some (new', off + 2)
   })"

definition putBool :: "cursor \<Rightarrow> bool \<Rightarrow> cursor option" where
  "putBool c v = (if v then putUint16 c 0xFF00 else putUint16 c 0x0000)"

text \<open>
  \<^verbatim>\<open>putBoolS\<close>: the loop sets bit \<open>c mod 8\<close> (from the top) of byte \<open>c div 8\<close> for every
  true element; the final slice uses the last index (0 for an empty argument).
\<close>

fun putBoolS_loop :: "byte list \<Rightarrow> nat \<Rightarrow> (nat \<times> bool) list \<Rightarrow> byte list option" where
  "putBoolS_loop new off [] = Some new"
| "putBoolS_loop new off ((c, x) # rest) =
     (if x then do {
        b \<leftarrow> index new (off + c div 8);
        new' \<leftarrow> store new (off + c div 8) (b OR drop_bit (c mod 8) 0x80);
        putBoolS_loop new' off rest
      } else putBoolS_loop new off rest)"

definition putBoolS :: "cursor \<Rightarrow> bool list \<Rightarrow> cursor option" where
  "putBoolS cur args = (case cur of (new, off) \<Rightarrow> do {
     new' \<leftarrow> putBoolS_loop new off (enumerate 0 args);
     let c = length args - 1;
     if off + c div 8 + 1 \<le> length new' then Some (new', off + c div 8 + 1) else None
   })"

definition putByte :: "cursor \<Rightarrow> byte \<Rightarrow> cursor option" where
  "putByte c v = (case c of (new, off) \<Rightarrow> do {
     new' \<leftarrow> store new off v;
     Some (new', off + 1)
   })"

definition putByteS :: "cursor \<Rightarrow> byte list \<Rightarrow> cursor option" where
  "putByteS c args = (case c of (new, off) \<Rightarrow>
     (let (new', n) = copy_at new off args in Some (new', off + n)))"

fun putUint16S :: "cursor \<Rightarrow> uint16 list \<Rightarrow> cursor option" where
  "putUint16S c [] = Some c"
| "putUint16S c (v # vs) = do { c' \<leftarrow> putUint16 c v; putUint16S c' vs }"

fun put_arg :: "cursor \<Rightarrow> arg \<Rightarrow> cursor option" where
  "put_arg c (ArgBool v) = putBool c v"
| "put_arg c (ArgBoolS v) = putBoolS c v"
| "put_arg c (ArgByte v) = putByte c v"
| "put_arg c (ArgByteS v) = putByteS c v"
| "put_arg c (ArgUint16 v) = putUint16 c v"
| "put_arg c (ArgUint16S v) = putUint16S c v"

fun put_args :: "cursor \<Rightarrow> arg list \<Rightarrow> cursor option" where
  "put_args c [] = Some c"
| "put_args c (a # as) = do { c' \<leftarrow> put_arg c a; put_args c' as }"

definition put :: "nat \<Rightarrow> arg list \<Rightarrow> byte list option" where
  "put len args = do {
     (new, off) \<leftarrow> put_args (replicate len 0, 0) args;
     Some new
   }"

section \<open>The request multiplexer (handler.go)\<close>

text \<open>
  A callback of the \<^verbatim>\<open>Mux\<close> is \<open>None\<close> when the field is \<^verbatim>\<open>nil\<close>.  A returned
  \<^verbatim>\<open>Exception\<close> is an \<open>exception option\<close>, \<open>None\<close> for \<^verbatim>\<open>nil\<close>.  Every invocation of
  a callback is recorded, in order, as a \<open>call\<close>, so that "the callback is not invoked"
  is a statement about the returned trace.
\<close>

record Mux =
  Fallback :: "(byte \<Rightarrow> byte list \<Rightarrow> byte list \<times> exception option) option"
  ReadCoils :: "(uint16 \<Rightarrow> uint16 \<Rightarrow> bool list \<times> exception option) option"
  ReadDiscreteInputs :: "(uint16 \<Rightarrow> uint16 \<Rightarrow> bool list \<times> exception option) option"
  ReadHoldingRegisters :: "(uint16 \<Rightarrow> uint16 \<Rightarrow> byte list \<times> exception option) option"
  ReadInputRegisters :: "(uint16 \<Rightarrow> uint16 \<Rightarrow> byte list \<times> exception option) option"
  WriteSingleCoil :: "(uint16 \<Rightarrow> bool \<Rightarrow> exception option) option"
  WriteSingleRegister :: "(uint16 \<Rightarrow> uint16 \<Rightarrow> exception option) option"
  WriteMultipleCoils :: "(uint16 \<Rightarrow> bool list \<Rightarrow> exception option) option"
  WriteMultipleRegisters :: "(uint16 \<Rightarrow> byte list \<Rightarrow> exception option) option"
  ReadWriteMultipleRegisters ::
    "(uint16 \<Rightarrow> uint16 \<Rightarrow> uint16 \<Rightarrow> byte list \<Rightarrow> byte list \<times> exception option) option"

datatype call =
    CallFallback byte "byte list"
  | CallReadCoils uint16 uint16
  | CallReadDiscreteInputs uint16 uint16
  | CallReadHoldingRegisters uint16 uint16
  | CallReadInputRegisters uint16 uint16
  | CallWriteSingleCoil uint16 bool
  | CallWriteSingleRegister uint16 uint16
  | CallWriteMultipleCoils uint16 "bool list"
  | CallWriteMultipleRegisters uint16 "byte list"
  | CallReadWriteMultipleRegisters uint16 uint16 uint16 "byte list"

text \<open>The pair \<^verbatim>\<open>(res, ex)\<close> a handler returns, with the callbacks it invoked.\<close>

type_synonym handled = "(byte list \<times> exception option) \<times> call list"

definition refuse :: "exception \<Rightarrow> call list \<Rightarrow> handled option" where
  "refuse ex calls = Some (([], Some ex), calls)"

definition fallback :: "Mux \<Rightarrow> byte \<Rightarrow> byte list \<Rightarrow> handled option" where
  "fallback h code req =
     (case Fallback h of
        None \<Rightarrow> refuse ExIllegalFunction []
      | Some cb \<Rightarrow> Some (cb code req, [CallFallback code req]))"

text \<open>
  The read handlers.  \<^verbatim>\<open>int(address)+int(quantity)\<close> is an addition of machine
  \<^verbatim>\<open>int\<close>s and cannot overflow, so it is an addition of naturals;
  \<^verbatim>\<open>byte(quantity*2)\<close> is a \<^verbatim>\<open>uint16\<close> product, truncated.
\<close>

definition readCoils :: "Mux \<Rightarrow> byte list \<Rightarrow> handled option" where
  "readCoils h req =
     (case ReadCoils h of
        None \<Rightarrow> refuse ExIllegalFunction []
      | Some cb \<Rightarrow>
          if length req \<noteq> 4 then refuse ExIllegalDataAddress []
          else do {
            address \<leftarrow> Uint16 req 0;
            quantity \<leftarrow> Uint16 req 2;
            if quantity < 1 \<or> quantity > 2000 then refuse ExIllegalDataValue []
            else if unat address + unat quantity > 0xFFFF then refuse ExIllegalDataAddress []
            else (case cb address quantity of
                (status, Some ex) \<Rightarrow> refuse ex [CallReadCoils address quantity]
              | (status, None) \<Rightarrow>
                  if length status \<noteq> unat quantity
                  then refuse ExSlaveDeviceFailure [CallReadCoils address quantity]
                  else do {
                    res \<leftarrow> put (1 + byteCount quantity)
                             [ArgByte (of_nat (byteCount quantity)), ArgBoolS status];
                    Some ((res, None), [CallReadCoils address quantity])
                  })
          })"

definition readDiscreteInputs :: "Mux \<Rightarrow> byte list \<Rightarrow> handled option" where
  "readDiscreteInputs h req =
     (case ReadDiscreteInputs h of
        None \<Rightarrow> refuse ExIllegalFunction []
      | Some cb \<Rightarrow>
          if length req \<noteq> 4 then refuse ExIllegalDataAddress []
          else do {
            address \<leftarrow> Uint16 req 0;
            quantity \<leftarrow> Uint16 req 2;
            if quantity < 1 \<or> quantity > 2000 then refuse ExIllegalDataValue []
            else if unat address + unat quantity > 0xFFFF then refuse ExIllegalDataAddress []
            else (case cb address quantity of
                (status, Some ex) \<Rightarrow> refuse ex [CallReadDiscreteInputs address quantity]
              | (status, None) \<Rightarrow>
                  if length status \<noteq> unat quantity
                  then refuse ExSlaveDeviceFailure [CallReadDiscreteInputs address quantity]
                  else do {
                    res \<leftarrow> put (1 + byteCount quantity)
                             [ArgByte (of_nat (byteCount quantity)), ArgBoolS status];
                    Some ((res, None), [CallReadDiscreteInputs address quantity])
                  })
          })"

definition readHoldingRegisters :: "Mux \<Rightarrow> byte list \<Rightarrow> handled option" where
  "readHoldingRegisters h req =
     (case ReadHoldingRegisters h of
        None \<Rightarrow> refuse ExIllegalFunction []
      | Some cb \<Rightarrow>
          if length req \<noteq> 4 then refuse ExIllegalDataAddress []
          else do {
            address \<leftarrow> Uint16 req 0;
            quantity \<leftarrow> Uint16 req 2;
            if quantity < 1 \<or> quantity > 125 then refuse ExIllegalDataValue []
            else if unat address + unat quantity > 0xFFFF then refuse ExIllegalDataAddress []
            else (case cb address quantity of
                (values, Some ex) \<Rightarrow> refuse ex [CallReadHoldingRegisters address quantity]
              | (values, None) \<Rightarrow>
                  if length values \<noteq> 2 * unat quantity
                  then refuse ExSlaveDeviceFailure [CallReadHoldingRegisters address quantity]
                  else do {
                    res \<leftarrow> put (1 + unat quantity * 2)
                             [ArgByte (ucast (quantity * 2)), ArgByteS values];
                    Some ((res, None), [CallReadHoldingRegisters address quantity])
                  })
          })"

definition readInputRegisters :: "Mux \<Rightarrow> byte list \<Rightarrow> handled option" where
  "readInputRegisters h req =
     (case ReadInputRegisters h of
        None \<Rightarrow> refuse ExIllegalFunction []
      | Some cb \<Rightarrow>
          if length req \<noteq> 4 then refuse ExIllegalDataAddress []
          else do {
            address \<leftarrow> Uint16 req 0;
            quantity \<leftarrow> Uint16 req 2;
            if quantity < 1 \<or> quantity > 125 then refuse ExIllegalDataValue []
            else if unat address + unat quantity > 0xFFFF then refuse ExIllegalDataAddress []
            else (case cb address quantity of
                (values, Some ex) \<Rightarrow> refuse ex [CallReadInputRegisters address quantity]
              | (values, None) \<Rightarrow>
                  if length values \<noteq> 2 * unat quantity
                  then refuse ExSlaveDeviceFailure [CallReadInputRegisters address quantity]
                  else do {
                    res \<leftarrow> put (1 + unat quantity * 2)
                             [ArgByte (ucast (quantity * 2)), ArgByteS values];
                    Some ((res, None), [CallReadInputRegisters address quantity])
                  })
          })"

definition writeSingleCoil :: "Mux \<Rightarrow> byte list \<Rightarrow> handled option" where
  "writeSingleCoil h req =
     (case WriteSingleCoil h of
        None \<Rightarrow> refuse ExIllegalFunction []
      | Some cb \<Rightarrow>
          if length req \<noteq> 4 then refuse ExIllegalDataAddress []
          else do {
            address \<leftarrow> Uint16 req 0;
            v \<leftarrow> Uint16 req 2;
            status \<leftarrow> Some (if v = 0x0000 then Some False
                             else if v = 0xFF00 then Some True else None);
            case status of
              None \<Rightarrow> refuse ExIllegalDataValue []
            | Some st \<Rightarrow>
                (case cb address st of
                   Some ex \<Rightarrow> refuse ex [CallWriteSingleCoil address st]
                 | None \<Rightarrow> Some ((req, None), [CallWriteSingleCoil address st]))
          })"

definition writeSingleRegister :: "Mux \<Rightarrow> byte list \<Rightarrow> handled option" where
  "writeSingleRegister h req =
     (case WriteSingleRegister h of
        None \<Rightarrow> refuse ExIllegalFunction []
      | Some cb \<Rightarrow>
          if length req \<noteq> 4 then refuse ExIllegalDataAddress []
          else do {
            address \<leftarrow> Uint16 req 0;
            v \<leftarrow> Uint16 req 2;
            case cb address v of
              Some ex \<Rightarrow> refuse ex [CallWriteSingleRegister address v]
            | None \<Rightarrow> Some ((req, None), [CallWriteSingleRegister address v])
          })"

definition writeMultipleCoils :: "Mux \<Rightarrow> byte list \<Rightarrow> handled option" where
  "writeMultipleCoils h req =
     (case WriteMultipleCoils h of
        None \<Rightarrow> refuse ExIllegalFunction []
      | Some cb \<Rightarrow>
          if length req < 6 then refuse ExIllegalDataAddress []
          else do {
            address \<leftarrow> Uint16 req 0;
            quantity \<leftarrow> Uint16 req 2;
            count \<leftarrow> index req 4;
            if quantity < 1 \<or> quantity > 1968 \<or> length (drop 5 req) \<noteq> unat count
            then refuse ExIllegalDataValue []
            else if unat address + unat quantity > 0xFFFF then refuse ExIllegalDataAddress []
            else (let status = bytesToBools quantity (drop 5 req) in
              case cb address status of
                Some ex \<Rightarrow> refuse ex [CallWriteMultipleCoils address status]
              | None \<Rightarrow> Some ((take 4 req, None), [CallWriteMultipleCoils address status]))
          })"

definition writeMultipleRegisters :: "Mux \<Rightarrow> byte list \<Rightarrow> handled option" where
  "writeMultipleRegisters h req =
     (case WriteMultipleRegisters h of
        None \<Rightarrow> refuse ExIllegalFunction []
      | Some cb \<Rightarrow>
          if length req < 6 then refuse ExIllegalDataAddress []
          else do {
            address \<leftarrow> Uint16 req 0;
            quantity \<leftarrow> Uint16 req 2;
            count \<leftarrow> index req 4;
            if quantity < 1 \<or> quantity > 123 \<or> 2 * quantity \<noteq> ucast count
               \<or> unat count \<noteq> length (drop 5 req)
            then refuse ExIllegalDataValue []
            else if unat address + unat quantity > 0xFFFF then refuse ExIllegalDataAddress []
            else (case cb address (drop 5 req) of
                Some ex \<Rightarrow> refuse ex [CallWriteMultipleRegisters address (drop 5 req)]
              | None \<Rightarrow>
                  Some ((take 4 req, None), [CallWriteMultipleRegisters address (drop 5 req)]))
          })"

text \<open>
  \<^verbatim>\<open>readWriteMultipleRegisters\<close>: the byte count \<^verbatim>\<open>req[8]\<close> is compared with
  \<^verbatim>\<open>rQuantity*2\<close>, as the source has it.
\<close>

definition readWriteMultipleRegisters :: "Mux \<Rightarrow> byte list \<Rightarrow> handled option" where
  "readWriteMultipleRegisters h req =
     (case ReadWriteMultipleRegisters h of
        None \<Rightarrow> refuse ExIllegalFunction []
      | Some cb \<Rightarrow>
          if length req < 11 then refuse ExIllegalDataAddress []
          else do {
            rAddress \<leftarrow> Uint16 req 0;
            rQuantity \<leftarrow> Uint16 req 2;
            wAddress \<leftarrow> Uint16 req 4;
            wQuantity \<leftarrow> Uint16 req 6;
            count \<leftarrow> index req 8;
            if rQuantity < 1 \<or> rQuantity > 125 \<or> wQuantity < 1 \<or> wQuantity > 121
               \<or> rQuantity * 2 \<noteq> ucast count \<or> unat count \<noteq> length (drop 9 req)
            then refuse ExIllegalDataValue []
            else if unat rAddress + unat rQuantity > 0xFFFF
                    \<or> unat wAddress + unat wQuantity > 0xFFFF
            then refuse ExIllegalDataAddress []
            else (let rec = CallReadWriteMultipleRegisters rAddress rQuantity wAddress (drop 9 req) in
              case cb rAddress rQuantity wAddress (drop 9 req) of
                (res, Some ex) \<Rightarrow> refuse ex [rec]
              | (res, None) \<Rightarrow>
                  if length res \<noteq> unat rQuantity * 2 then refuse ExSlaveDeviceFailure [rec]
                  else do {
                    out \<leftarrow> put (1 + length res) [ArgByte (of_nat (length res)), ArgByteS res];
                    Some ((out, None), [rec])
                  })
          })"

definition Handle :: "Mux \<Rightarrow> byte \<Rightarrow> byte list \<Rightarrow> handled option" where
  "Handle h code req =
     (if code = 0x01 then readCoils h req
      else if code = 0x02 then readDiscreteInputs h req
      else if code = 0x03 then readHoldingRegisters h req
      else if code = 0x04 then readInputRegisters h req
      else if code = 0x05 then writeSingleCoil h req
      else if code = 0x06 then writeSingleRegister h req
      else if code = 0x0F then writeMultipleCoils h req
      else if code = 0x10 then writeMultipleRegisters h req
      else if code = 0x17 then readWriteMultipleRegisters h req
      else fallback h code req)"

section \<open>The server's task for one frame (server.go)\<close>

text \<open>
  The body of the goroutine that \<^verbatim>\<open>Server.handle\<close> starts for every frame read without
  error.  The listener first copies the frame into a fresh 260-byte buffer.  The task either
  returns without writing (\<open>Dropped\<close>) or hands one reply to \<^verbatim>\<open>c.write\<close>
  (\<open>Written\<close>); the error of \<^verbatim>\<open>reply\<close> is discarded and \<^verbatim>\<open>nil\<close> is written then.
  \<open>respond\<close> is the part of the task after the first \<^verbatim>\<open>switch\<close> has found no
  decode error: its remaining two cases, the second \<^verbatim>\<open>switch\<close>, the reply and the write.
  The handler is the \<^verbatim>\<open>Handler\<close> interface value.  \<^verbatim>\<open>server.go\<close> calls the framer
  through a signature without the unit id; with the signatures of \<^verbatim>\<open>framer.go\<close> the
  unit id that \<^verbatim>\<open>decode\<close> returns is the one given to \<^verbatim>\<open>reply\<close>.
\<close>

datatype outcome = Dropped | Written "byte list"

type_synonym handler = "byte \<Rightarrow> byte list \<Rightarrow> handled option"

definition respond ::
  "tcp \<Rightarrow> handler \<Rightarrow> byte list \<Rightarrow> byte \<Rightarrow> byte \<Rightarrow> byte list \<Rightarrow> (outcome \<times> tcp \<times> call list) option" where
  "respond f h adu uid code req = do {
     ((res, ex), calls) \<leftarrow>
       (if code < 0x80 then h code req else Some (([], Some ExIllegalFunction), []));
     let (code', res') =
       (case ex of
          Some e \<Rightarrow> (code OR 0x80, [Code e])
        | None \<Rightarrow>
            if length res > 252 then (code OR 0x80, [Code ExSlaveDeviceFailure])
            else (code, res));
     (r, f') \<leftarrow> reply f uid code' res' adu;
     Some (Written (case r of Inl err \<Rightarrow> [] | Inr out \<Rightarrow> out), f', calls)
   }"

definition handle_frame :: "tcp \<Rightarrow> handler \<Rightarrow> byte list \<Rightarrow> (outcome \<times> tcp \<times> call list) option" where
  "handle_frame f h frame = do {
     let (buf, n) = copy_at buffer 0 frame;
     let adu = take n buf;
     d \<leftarrow> decode adu;
     case d of
       Inl err \<Rightarrow> Some (Dropped, f, [])
     | Inr (uid, code, req) \<Rightarrow> respond f h adu uid code req
   }"

section \<open>The receiver of a client request and the connection's broadcast\<close>

text \<open>
  The callback that \<^verbatim>\<open>Client.Request\<close> registers.  It either keeps waiting
  (\<open>Continue\<close>, \<^verbatim>\<open>quit = false\<close>) or quits with the pair \<^verbatim>\<open>(res, err)\<close> it stored.
  On a verified frame the bytes are copied over the request buffer (capacity 260, zero
  beyond the request) and the copied prefix is decoded.
\<close>

datatype verdict = Continue | Quit "error + byte list"

definition receive :: "byte list \<Rightarrow> byte list \<Rightarrow> error option \<Rightarrow> verdict option" where
  "receive req adu er =
     (case er of
        Some e \<Rightarrow> Some (Quit (Inl e))
      | None \<Rightarrow> do {
          e \<leftarrow> verify req adu;
          case e of
            Inr _ \<Rightarrow> do {
              let (buf, n) = copy_at (req @ replicate (260 - length req) 0) 0 adu;
              d \<leftarrow> decode (take n buf);
              Some (Quit (case d of Inl err \<Rightarrow> Inl err | Inr (u, c, res) \<Rightarrow> Inr res))
            }
          | Inl ErrMismatchedTransactionId \<Rightarrow> Some Continue
          | Inl err \<Rightarrow> Some (Quit (Inl err))
        })"

text \<open>
  A registered receiver: the identity of its \<^verbatim>\<open>done\<close> channel and its callback.
  \<^verbatim>\<open>rx\<close> pushes a receiver to the front of the list; \<^verbatim>\<open>broadcast\<close> walks the list from
  the front, calls every callback with the frame, removes the receivers that quit and
  closes their channels (returned here with what each callback stored).  Both run under
  the connection's mutex, so each is one atomic step on the list.
\<close>

record receiver =
  done_chan :: nat
  callback :: "byte list \<Rightarrow> error option \<Rightarrow> verdict option"

definition rx :: "receiver list \<Rightarrow> receiver \<Rightarrow> receiver list" where
  "rx l r = r # l"

fun broadcast ::
  "receiver list \<Rightarrow> byte list \<Rightarrow> error option
     \<Rightarrow> (receiver list \<times> (nat \<times> (error + byte list)) list) option" where
  "broadcast [] adu err = Some ([], [])"
| "broadcast (r # rs) adu err = do {
     v \<leftarrow> callback r adu err;
     (rs', closed) \<leftarrow> broadcast rs adu err;
     case v of
       Quit res \<Rightarrow> Some (rs', (done_chan r, res) # closed)
     | Continue \<Rightarrow> Some (r # rs', closed)
   }"

section \<open>The client's request\<close>

text \<open>
  The client holds its configuration, the connection (\<open>None\<close> for \<^verbatim>\<open>nil\<close>) and the framer.
  What the network does during one call is given by a \<open>world\<close>: the result of dialling,
  the result of the transmit, the frames broadcast to the call's receiver in order, and
  whether the caller's context is done at the final \<^verbatim>\<open>select\<close>.  Every effect of the
  call is recorded as an \<open>event\<close>.  A call that waits for its receiver for ever
  \<open>Blocks\<close>.
\<close>

record Config =
  Mode :: string
  Kind :: string
  Endpoint :: string
  UnitID :: byte

datatype connection = Network (ready: bool)

record Client = Config +
  client_c :: "connection option"
  client_f :: "tcp option"

record world =
  dial :: "error option"
  tx_err :: "error option"
  inbound :: "(byte list \<times> error option) list"
  ctx_done :: bool

datatype event =
    EvDial
  | EvEncode
  | EvRx
  | EvTx "byte list"
  | EvCallback "byte list" "error option"

datatype run = Returns "error + byte list" | Blocks

definition IllegalFunction :: exception where "IllegalFunction = Exception 0x01"

definition Config_framer :: "'a Config_scheme \<Rightarrow> error + tcp" where
  "Config_framer cfg = (if Mode cfg = ''tcp'' then Inr \<lparr>transId = 0\<rparr> else Inl ErrInvalidParameter)"

definition Config_connection :: "'a Config_scheme \<Rightarrow> world \<Rightarrow> (error + connection) \<times> event list" where
  "Config_connection cfg w =
     (if Kind cfg = ''tcp''
      then (case dial w of Some e \<Rightarrow> (Inl e, [EvDial]) | None \<Rightarrow> (Inr (Network True), [EvDial]))
      else (Inl ErrInvalidParameter, []))"

definition init :: "Client \<Rightarrow> world \<Rightarrow> (error + connection \<times> tcp) \<times> Client \<times> event list" where
  "init c w =
     (let (r, c1, ev) =
        (case client_c c of
           Some (Network True) \<Rightarrow> (Inr (Network True), c, [])
         | _ \<Rightarrow>
            (case Config_connection c w of
               (Inl e, ev) \<Rightarrow> (Inl e, c\<lparr>client_c := None\<rparr>, ev)
             | (Inr con, ev) \<Rightarrow> (Inr con, c\<lparr>client_c := Some con\<rparr>, ev)))
      in case r of
           Inl e \<Rightarrow> (Inl e, c1, ev)
         | Inr con \<Rightarrow>
            (case client_f c1 of
               Some f \<Rightarrow> (Inr (con, f), c1, ev)
             | None \<Rightarrow>
                (case Config_framer c1 of
                   Inl e \<Rightarrow> (Inl e, c1, ev)
                 | Inr f \<Rightarrow> (Inr (con, f), c1\<lparr>client_f := Some f\<rparr>, ev))))"

fun await :: "byte list \<Rightarrow> (byte list \<times> error option) list \<Rightarrow> (verdict \<times> event list) option" where
  "await req [] = Some (Continue, [])"
| "await req ((adu, er) # rest) = do {
     v \<leftarrow> receive req adu er;
     case v of
       Quit r \<Rightarrow> Some (Quit r, [EvCallback adu er])
     | Continue \<Rightarrow> do {
         (v', ev) \<leftarrow> await req rest;
         Some (v', EvCallback adu er # ev)
       }
   }"

definition Request ::
  "Client \<Rightarrow> world \<Rightarrow> byte \<Rightarrow> byte \<Rightarrow> byte list \<Rightarrow> (run \<times> Client \<times> event list) option" where
  "Request c w uid code req =
     (if code = 0 \<or> code \<ge> 0x80 then Some (Returns (Inl (ErrException IllegalFunction)), c, [])
      else case init c w of
        (Inl err, c1, ev) \<Rightarrow> Some (Returns (Inl err), c1, ev)
      | (Inr (con, f), c1, ev) \<Rightarrow> do {
          (r, f') \<leftarrow> encode f uid code req;
          let c2 = c1\<lparr>client_f := Some f'\<rparr>;
          case r of
            Inl err \<Rightarrow> Some (Returns (Inl err), c2, ev @ [EvEncode])
          | Inr adu \<Rightarrow>
             (case tx_err w of
                Some err \<Rightarrow> Some (Returns (Inl err), c2, ev @ [EvEncode, EvRx, EvTx adu])
              | None \<Rightarrow> do {
                  (v, ev') \<leftarrow> await adu (inbound w);
                  Some (if ctx_done w then Returns (Inl Canceled)
                        else (case v of Quit res \<Rightarrow> Returns res | Continue \<Rightarrow> Blocks),
                        c2, ev @ [EvEncode, EvRx, EvTx adu] @ ev')
                })
        })"

section \<open>Several requests sharing one connection\<close>

text \<open>
  \<^verbatim>\<open>rx\<close> and \<^verbatim>\<open>broadcast\<close> hold the connection's mutex, so an execution of several
  concurrent \<^verbatim>\<open>Request\<close> calls and the reader loop is a sequence of atomic steps on the
  receiver list: call \<open>k\<close> registers its receiver (\<open>Register k\<close>), or one read of the
  reader loop returns exactly the response to call \<open>k\<close> and is broadcast (\<open>Deliver k\<close>).  \<open>reqs k\<close> is the encoded request
  of call \<open>k\<close> and \<open>ress k\<close> the frame the peer sends in response.  The state is the
  receiver list and the closed \<^verbatim>\<open>done\<close> channels, each with the \<^verbatim>\<open>(res, err)\<close> its
  callback stored, which is what the call returns once its channel is closed.
\<close>

datatype step = Register nat | Deliver nat

definition waiter :: "(nat \<Rightarrow> byte list) \<Rightarrow> nat \<Rightarrow> receiver" where
  "waiter reqs k = \<lparr>done_chan = k, callback = receive (reqs k)\<rparr>"

fun run_steps ::
  "(nat \<Rightarrow> byte list) \<Rightarrow> (nat \<Rightarrow> byte list)
     \<Rightarrow> receiver list \<times> (nat \<times> (error + byte list)) list \<Rightarrow> step list
     \<Rightarrow> (receiver list \<times> (nat \<times> (error + byte list)) list) option" where
  "run_steps reqs ress st [] = Some st"
| "run_steps reqs ress (l, closed) (Register k # ss) =
     run_steps reqs ress (rx l (waiter reqs k), closed) ss"
| "run_steps reqs ress (l, closed) (Deliver k # ss) = do {
     (l', cl) \<leftarrow> broadcast l (ress k) None;
     run_steps reqs ress (l', closed @ cl) ss
   }"

text \<open>
  A schedule is causal when a response is delivered only to a call that is registered and
  still waiting (a call transmits after it has registered, and the peer answers what it
  has received), no waiting call registers again, and no call is left waiting at the end.
\<close>

fun causal :: "nat list \<Rightarrow> step list \<Rightarrow> bool" where
  "causal waiting [] = (waiting = [])"
| "causal waiting (Register k # ss) = (k \<notin> set waiting \<and> causal (k # waiting) ss)"
| "causal waiting (Deliver k # ss) = (k \<in> set waiting \<and> causal (remove1 k waiting) ss)"

fun registered :: "step list \<Rightarrow> nat list" where
  "registered [] = []"
| "registered (Register k # ss) = k # registered ss"
| "registered (Deliver k # ss) = registered ss"

fun delivered :: "step list \<Rightarrow> nat list" where
  "delivered [] = []"
| "delivered (Register k # ss) = delivered ss"
| "delivered (Deliver k # ss) = k # delivered ss"

text \<open>
  What call \<open>k\<close> sees of a schedule: its receiver is on the list from its registration
  on, so its callback is offered every frame that is broadcast after \<open>Register k\<close>, in
  order, until it quits.  Its transmit succeeds and its context is not cancelled.
\<close>

fun frames_after :: "nat \<Rightarrow> step list \<Rightarrow> nat list" where
  "frames_after k [] = []"
| "frames_after k (Register j # ss) = (if j = k then delivered ss else frames_after k ss)"
| "frames_after k (Deliver j # ss) = frames_after k ss"

definition seen :: "step list \<Rightarrow> (nat \<Rightarrow> byte list) \<Rightarrow> nat \<Rightarrow> world" where
  "seen sched ress k =
     \<lparr>dial = None, tx_err = None,
      inbound = map (\<lambda>j. (ress j, None)) (frames_after k sched), ctx_done = False\<rparr>"

text \<open>
  What the peer's echo of a request is: a whole frame of 8 to 260 bytes (9 at least when
  it reports an exception) that repeats the transaction id, the protocol id and the unit
  id of the request.
\<close>

definition echo :: "byte list \<Rightarrow> byte list \<Rightarrow> bool" where
  "echo req res \<longleftrightarrow>
     8 \<le> length req \<and> 8 \<le> length res \<and> length res \<le> 260
     \<and> take 4 res = take 4 req \<and> res ! 6 = req ! 6
     \<and> (res ! 7 \<ge> 0x80 \<longrightarrow> 9 \<le> length res)"

text \<open>
  The content of such a response as a call returns it: the bytes after the header, or the
  exception the response reports.
\<close>

definition returned :: "byte list \<Rightarrow> error + byte list" where
  "returned adu =
     (if adu ! 7 \<ge> 0x80 then Inl (ErrException (Exception (adu ! 8))) else Inr (drop 8 adu))"

section \<open>Concrete inputs\<close>

text \<open>A multiplexer that serves holding registers only, with zeros.\<close>

definition registers_only :: Mux where
  "registers_only =
     \<lparr>Fallback = None, ReadCoils = None, ReadDiscreteInputs = None,
      ReadHoldingRegisters = Some (\<lambda>a q. (replicate (2 * unat q) 0, None)),
      ReadInputRegisters = None, WriteSingleCoil = None, WriteSingleRegister = None,
      WriteMultipleCoils = None, WriteMultipleRegisters = None,
      ReadWriteMultipleRegisters = None\<rparr>"

text \<open>A client that has not connected yet, and a network on which nothing happens.\<close>

definition fresh_client :: Client where
  "fresh_client =
     \<lparr>Mode = ''tcp'', Kind = ''tcp'', Endpoint = ''localhost:502'', UnitID = 0x11,
      client_c = None, client_f = None\<rparr>"

definition quiet :: world where
  "quiet = \<lparr>dial = None, tx_err = None, inbound = [], ctx_done = False\<rparr>"

text \<open>
  Two read requests with the transaction ids 1 and 2, and their responses
  (any other call number stands for the first).
\<close>

definition two_requests :: "nat \<Rightarrow> byte list" where
  "two_requests k =
     (if k = 1 then [0, 2, 0, 0, 0, 6, 0x11, 3, 0, 0x6B, 0, 1]
      else [0, 1, 0, 0, 0, 6, 0x11, 3, 0, 0x6B, 0, 3])"

definition two_responses :: "nat \<Rightarrow> byte list" where
  "two_responses k =
     (if k = 1 then [0, 2, 0, 0, 0, 5, 0x11, 3, 2, 0xAB, 0xCD]
      else [0, 1, 0, 0, 0, 9, 0x11, 3, 6, 2, 0x2B, 0, 0, 0, 0x64])"

definition two_bodies :: "nat \<Rightarrow> byte list" where
  "two_bodies k = (if k = 1 then [0, 0x6B, 0, 1] else [0, 0x6B, 0, 3])"

text \<open>A client whose connection is ready and whose framer has allocated \<open>n\<close> transaction ids.\<close>

definition connected_client :: "nat \<Rightarrow> Client" where
  "connected_client n =
     \<lparr>Mode = ''tcp'', Kind = ''tcp'', Endpoint = ''localhost:502'', UnitID = 0x11,
      client_c = Some (Network True), client_f = Some \<lparr>transId = of_nat n\<rparr>\<rparr>"

text \<open>
  A network on which both responses, the second call's first, arrive in one read of 26
  bytes, and nothing after it.
\<close>

definition coalesced :: world where
  "coalesced =
     \<lparr>dial = None, tx_err = None,
      inbound = [([0, 2, 0, 0, 0, 5, 0x11, 3, 2, 0xAB, 0xCD,
                   0, 1, 0, 0, 0, 9, 0x11, 3, 6, 2, 0x2B, 0, 0, 0, 0x64], None)],
      ctx_done = False\<rparr>"

section \<open>Facts about the framer\<close>

lemma buffer_split: "buffer = [0, 0, 0, 0, 0, 0, 0, 0] @ replicate 252 0"
proof -
  have "buffer = replicate (8 + 252) (0::byte)"
    by (simp add: buffer_def)
  also have "\<dots> = replicate 8 0 @ replicate 252 0"
    by (rule replicate_add)
  also have "replicate 8 (0::byte) = [0, 0, 0, 0, 0, 0, 0, 0]"
    by (simp add: numeral_eq_Suc)
  finally show ?thesis .
qed

text \<open>The bytes \<^verbatim>\<open>encode\<close> produces, written out.\<close>

lemma encode_eq:
  assumes "length data \<le> 252"
  shows "encode s uid code data =
     Some (Inr ([ucast (drop_bit 8 (ucast (transId s + 1) :: uint16)),
                 ucast (ucast (transId s + 1) :: uint16), 0, 0,
                 ucast (drop_bit 8 (2 + of_nat (length data) :: uint16)),
                 ucast (2 + of_nat (length data) :: uint16), uid, code] @ data),
           s\<lparr>transId := transId s + 1\<rparr>)"
  using assms
  by (simp add: encode_def buffer_split PutUint16_def store_def copy_at_def Let_def)

lemma encode_too_long:
  "252 < length data \<Longrightarrow> encode s uid code data = Some (Inl ErrDataSizeExceeded, s)"
  by (simp add: encode_def)

lemma Uint16_length_field:
  "Uint16 (a # b # c # d # ucast (drop_bit 8 v) # ucast (v::uint16) # rest) 4 = Some v"
  unfolding Uint16_def
  apply simp
  apply (rule bit_word_eqI)
  apply (auto simp: bit_simps)
  done

lemma unat_length_field: "n \<le> 252 \<Longrightarrow> unat (2 + of_nat n :: uint16) = 2 + n"
  by (simp add: unat_word_ariths unat_of_nat take_bit_nat_eq_self)

lemma decode_request_frame:
  "code < 0x80 \<Longrightarrow> decode (a # b # c # d # e # f # uid # code # data) = Some (Inr (uid, code, data))"
  by (simp add: decode_def index_def linorder_not_le)

text \<open>\<^verbatim>\<open>decode\<close> panics on exactly the 8-byte frames whose function code has the high bit.\<close>

lemma decode_panics_iff: "decode adu = None \<longleftrightarrow> length adu = 8 \<and> adu ! 7 \<ge> 0x80"
  by (auto simp: decode_def index_def)

text \<open>
  Claim C1, as amended.  For every unit id, every function code below 0x80 and every data
  of at most 252 bytes, decoding the frame that \<^verbatim>\<open>encode\<close> produces gives back the unit
  id, the code and the data; and for every function code the frame's protocol id bytes
  are 0 and its length field is 2 plus the length of the data.
\<close>

theorem encode_decode_roundtrip:
  assumes "length data \<le> 252"
  shows "\<exists>adu s'. encode s uid code data = Some (Inr adu, s')
           \<and> index adu 2 = Some 0 \<and> index adu 3 = Some 0
           \<and> (\<exists>len. Uint16 adu 4 = Some len \<and> unat len = 2 + length data)
           \<and> (code < 0x80 \<longrightarrow> decode adu = Some (Inr (uid, code, data)))"
  using assms
  by (simp add: encode_eq index_def Uint16_length_field unat_length_field decode_request_frame)

text \<open>The theorem at the read request of unit 0x11 for three registers from address 107.\<close>

theorem encode_decode_roundtrip_witness:
  "length [0, 0x6B, 0, 3 :: byte] \<le> 252 \<and> (3 :: byte) < 0x80
   \<and> (\<exists>adu s'. encode \<lparr>transId = 0\<rparr> 0x11 3 [0, 0x6B, 0, 3] = Some (Inr adu, s')
         \<and> decode adu = Some (Inr (0x11, 3, [0, 0x6B, 0, 3])))"
  using encode_decode_roundtrip
    [where data = "[0, 0x6B, 0, 3]" and s = "\<lparr>transId = 0\<rparr>" and uid = "0x11" and code = 3]
  by auto

text \<open>
  Claim C1 as stated fails for a function code with the high bit: the frame encoded for
  code 0x81 and data \<open>[5]\<close> decodes to the exception 5, not to the triple.
\<close>

theorem encode_decode_exception_code:
  "encode \<lparr>transId = 0\<rparr> 0x11 0x81 [0x05]
     = Some (Inr [0, 1, 0, 0, 0, 3, 0x11, 0x81, 0x05], \<lparr>transId = 1\<rparr>)
   \<and> decode [0, 1, 0, 0, 0, 3, 0x11, 0x81, 0x05] = Some (Inl (ErrException (Exception 0x05)))
   \<and> decode [0, 1, 0, 0, 0, 3, 0x11, 0x81, 0x05] \<noteq> Some (Inr (0x11, 0x81, [0x05]))"
  by (simp add: encode_eq decode_def index_def)

text \<open>
  Claim C2.  For a request and a response of at least 7 bytes each, \<^verbatim>\<open>verify\<close> returns
  the transaction id mismatch exactly when bytes 0 and 1 differ, otherwise the protocol
  id mismatch exactly when bytes 2 and 3 differ, otherwise the unit id mismatch exactly
  when the request's byte 6 is not zero and differs from the response's, and \<^verbatim>\<open>nil\<close> in
  every other case.
\<close>

theorem verify_cases:
  assumes "7 \<le> length req" and "7 \<le> length res"
  shows "verify req res = Some
    (if req ! 0 \<noteq> res ! 0 \<or> req ! 1 \<noteq> res ! 1 then Inl ErrMismatchedTransactionId
     else if req ! 2 \<noteq> res ! 2 \<or> req ! 3 \<noteq> res ! 3 then Inl ErrMismatchedProtocolId
     else if req ! 6 \<noteq> 0 \<and> req ! 6 \<noteq> res ! 6 then Inl ErrMismatchedUnitId
     else Inr ())"
proof -
  have req: "index req 0 = Some (req ! 0)" "index req 1 = Some (req ! 1)"
    "index req 2 = Some (req ! 2)" "index req 3 = Some (req ! 3)" "index req 6 = Some (req ! 6)"
    using assms(1) by (auto simp: index_def)
  have res: "index res 0 = Some (res ! 0)" "index res 1 = Some (res ! 1)"
    "index res 2 = Some (res ! 2)" "index res 3 = Some (res ! 3)" "index res 6 = Some (res ! 6)"
    using assms(2) by (auto simp: index_def)
  show ?thesis
    unfolding verify_def differ2_def req res by simp
qed

text \<open>
  The theorem at a paired request and response, at a response with another transaction
  id, and at a response from another unit.
\<close>

theorem verify_cases_witness:
  "7 \<le> length [0, 1, 0, 0, 0, 6, 0x11, 3, 0, 0x6B, 0, 3 :: byte]
   \<and> 7 \<le> length [0, 1, 0, 0, 0, 9, 0x11, 3, 6, 2, 0x2B, 0, 0, 0, 0x64 :: byte]
   \<and> verify [0, 1, 0, 0, 0, 6, 0x11, 3, 0, 0x6B, 0, 3]
        [0, 1, 0, 0, 0, 9, 0x11, 3, 6, 2, 0x2B, 0, 0, 0, 0x64] = Some (Inr ())
   \<and> verify [0, 1, 0, 0, 0, 6, 0x11, 3, 0, 0x6B, 0, 3]
        [0, 2, 0, 0, 0, 9, 0x11, 3, 6, 2, 0x2B, 0, 0, 0, 0x64] = Some (Inl ErrMismatchedTransactionId)
   \<and> verify [0, 1, 0, 0, 0, 6, 0x11, 3, 0, 0x6B, 0, 3]
        [0, 1, 0, 0, 0, 9, 0x12, 3, 6, 2, 0x2B, 0, 0, 0, 0x64] = Some (Inl ErrMismatchedUnitId)"
  using verify_cases [of "[0, 1, 0, 0, 0, 6, 0x11, 3, 0, 0x6B, 0, 3]"
                         "[0, 1, 0, 0, 0, 9, 0x11, 3, 6, 2, 0x2B, 0, 0, 0, 0x64]"]
    verify_cases [of "[0, 1, 0, 0, 0, 6, 0x11, 3, 0, 0x6B, 0, 3]"
                     "[0, 2, 0, 0, 0, 9, 0x11, 3, 6, 2, 0x2B, 0, 0, 0, 0x64]"]
    verify_cases [of "[0, 1, 0, 0, 0, 6, 0x11, 3, 0, 0x6B, 0, 3]"
                     "[0, 1, 0, 0, 0, 9, 0x12, 3, 6, 2, 0x2B, 0, 0, 0, 0x64]"]
  by simp

text \<open>
  Claim C3.  For data of at most 252 bytes and a request of at least 2 bytes,
  \<^verbatim>\<open>reply\<close> succeeds; its first two bytes are the first two bytes of the request and
  all its other bytes are those of the frame \<^verbatim>\<open>encode\<close> produces for the same unit id,
  code and data.
\<close>

theorem reply_keeps_transaction_id:
  assumes "length data \<le> 252" and "2 \<le> length req"
  shows "\<exists>adu s'. encode s uid code data = Some (Inr adu, s')
           \<and> reply s uid code data req = Some (Inr (take 2 req @ drop 2 adu), s')"
proof -
  obtain a b rest where req: "req = a # b # rest"
    using assms(2) by (cases req; cases "tl req") auto
  show ?thesis
    using assms(1) by (simp add: encode_eq reply_def index_def store_def req)
qed

text \<open>The theorem at the exception response to a request with transaction id 0xABCD.\<close>

theorem reply_keeps_transaction_id_witness:
  "length [0x01 :: byte] \<le> 252
   \<and> 2 \<le> length [0xAB, 0xCD, 0, 0, 0, 6, 0x11, 0x63, 0, 0, 0, 1 :: byte]
   \<and> reply \<lparr>transId = 7\<rparr> 0x11 0xE3 [0x01] [0xAB, 0xCD, 0, 0, 0, 6, 0x11, 0x63, 0, 0, 0, 1]
       = Some (Inr [0xAB, 0xCD, 0, 0, 0, 3, 0x11, 0xE3, 0x01], \<lparr>transId = 8\<rparr>)"
  using reply_keeps_transaction_id
    [where data = "[0x01]" and req = "[0xAB, 0xCD, 0, 0, 0, 6, 0x11, 0x63, 0, 0, 0, 1]"
       and s = "\<lparr>transId = 7\<rparr>" and uid = "0x11" and code = "0xE3"]
  by (simp add: encode_eq)

section \<open>Facts about the server's task\<close>

text \<open>What the task can go on with: \<^verbatim>\<open>decode\<close> never returns a function code with the high bit.\<close>

lemma decode_code_below_0x80: "decode adu = Some (Inr (uid, code, req)) \<Longrightarrow> code < 0x80"
  by (auto simp: decode_def index_def linorder_not_le split: if_splits)

lemma decode_Inr_length: "decode adu = Some (Inr t) \<Longrightarrow> 8 \<le> length adu"
  by (auto simp: decode_def split: if_splits)

lemma reply_first_bytes:
  assumes "length data \<le> 252" and "2 \<le> length req"
  shows "\<exists>out s'. reply s uid code data req = Some (Inr out, s') \<and> take 2 out = take 2 req"
proof -
  obtain a b rest where req: "req = a # b # rest"
    using assms(2) by (cases req; cases "tl req") auto
  show ?thesis
    using assms(1) by (simp add: encode_eq reply_def index_def store_def req)
qed

text \<open>The listener's copy is the frame, cut at 260 bytes.\<close>

lemma copy_buffer:
  obtains buf n where "copy_at buffer 0 frame = (buf, n)" and "take n buf = take 260 frame"
proof -
  have n: "min (length buffer - 0) (length frame) = min 260 (length frame)"
    by (simp add: buffer_def)
  have "copy_at buffer 0 frame
          = (take (min 260 (length frame)) frame @ drop (min 260 (length frame)) buffer,
             min 260 (length frame))"
    unfolding copy_at_def Let_def n by simp
  moreover have "take (min 260 (length frame))
                   (take (min 260 (length frame)) frame @ drop (min 260 (length frame)) buffer)
                 = take 260 frame"
    by (simp add: min_def)
  ultimately show ?thesis
    using that by blast
qed

text \<open>Every reply the task writes starts with the first two bytes of the frame it answers.\<close>

lemma respond_keeps_transaction_id:
  assumes "respond f h adu uid code req = Some (Written out, f', calls)" and "2 \<le> length adu"
  shows "take 2 out = take 2 adu"
proof -
  from assms(1) obtain code' res' r where r: "reply f uid code' res' adu = Some (r, f')"
    and out: "out = (case r of Inl err \<Rightarrow> [] | Inr out \<Rightarrow> out)" and l: "length res' \<le> 252"
    unfolding respond_def by (auto split: bind_splits option.splits if_splits)
  from reply_first_bytes [OF l assms(2), of f uid code'] r show ?thesis
    by (auto simp: out)
qed

lemma handle_frame_keeps_transaction_id:
  assumes "handle_frame f h frame = Some (Written out, f', calls)"
  shows "take 2 out = take 2 frame"
proof -
  obtain buf n where c: "copy_at buffer 0 frame = (buf, n)" and tk: "take n buf = take 260 frame"
    by (rule copy_buffer)
  from assms obtain uid code req where d: "decode (take 260 frame) = Some (Inr (uid, code, req))"
    and r: "respond f h (take 260 frame) uid code req = Some (Written out, f', calls)"
    by (auto simp: handle_frame_def c tk Let_def split: bind_splits sum.splits)
  have "8 \<le> length (take 260 frame)"
    using d by (rule decode_Inr_length)
  hence "take 2 out = take 2 (take 260 frame)"
    using r by (intro respond_keeps_transaction_id) auto
  thus ?thesis
    by simp
qed





text \<open>
  Two frames of the specification's scenarios, served by a multiplexer that knows holding
  registers only: an unsupported function code and a read of zero registers.
\<close>

lemma scenario_illegal_function:
  "handle_frame \<lparr>transId = 0\<rparr> (Handle registers_only) [0, 2, 0, 0, 0, 6, 0x11, 0x63, 0, 0, 0, 1]
     = Some (Written [0, 2, 0, 0, 0, 3, 0x11, 0xE3, 0x01], \<lparr>transId = 1\<rparr>, [])"
  by (simp add: handle_frame_def respond_def buffer_split copy_at_def decode_def index_def
      Handle_def fallback_def refuse_def registers_only_def ExIllegalFunction_def
      reply_def encode_eq store_def)

lemma scenario_bad_quantity:
  "handle_frame \<lparr>transId = 0\<rparr> (Handle registers_only) [0, 3, 0, 0, 0, 6, 0x11, 0x03, 0, 0, 0, 0]
     = Some (Written [0, 3, 0, 0, 0, 3, 0x11, 0x83, 0x03], \<lparr>transId = 1\<rparr>, [])"
  by (simp add: handle_frame_def respond_def buffer_split copy_at_def decode_def index_def
      Handle_def readHoldingRegisters_def Uint16_def refuse_def registers_only_def
      ExIllegalDataValue_def reply_def encode_eq store_def)

text \<open>
  A frame of at least 9 bytes whose function code has the high bit never reaches the
  branch that answers it: \<^verbatim>\<open>decode\<close> returns the exception as an error and the task
  returns without writing.
\<close>

lemma handle_frame_high_bit:
  assumes "9 \<le> length frame" and "frame ! 7 \<ge> 0x80"
  shows "handle_frame f h frame = Some (Dropped, f, [])"
proof -
  have n: "min (length buffer - 0) (length frame) = min 260 (length frame)"
    by (simp add: buffer_def)
  have adu: "copy_at buffer 0 frame
               = (take (min 260 (length frame)) frame @ drop (min 260 (length frame)) buffer,
                  min 260 (length frame))"
    unfolding copy_at_def Let_def n by simp
  have "decode (take (min 260 (length frame)) frame)
          = Some (Inl (ErrException (Exception (frame ! 8))))"
    using assms by (simp add: decode_def index_def)
  thus ?thesis
    by (simp add: handle_frame_def adu)
qed



section \<open>Facts about the multiplexer\<close>

text \<open>
  Claim C5, at a failing input.  With a bound callback, the request to read 1 register and
  write 2 registers with byte count 4 and 4 bytes of values is refused with
  \<^verbatim>\<open>IllegalDataValue\<close>, although its byte count is twice the write quantity and
  its body has exactly that many bytes.
\<close>

theorem readWriteMultipleRegisters_byte_count:
  "Handle (h\<lparr>ReadWriteMultipleRegisters := Some cb\<rparr>) 0x17 [0, 0, 0, 1, 0, 0, 0, 2, 4, 0, 1, 0, 2]
     = Some (([], Some ExIllegalDataValue), [])"
  by (simp add: Handle_def readWriteMultipleRegisters_def Uint16_def index_def refuse_def)

text \<open>
  The other direction: with a callback that returns 4 bytes, byte count 4 with write
  quantity 1 is accepted when 2 registers are read.
\<close>

lemma put_byte_count:
  "put (Suc (length res)) [ArgByte n, ArgByteS res] = Some (n # res)"
  by (simp add: put_def putByte_def putByteS_def store_def copy_at_def)

lemma readWriteMultipleRegisters_accepts_read_count:
  "Handle (h\<lparr>ReadWriteMultipleRegisters := Some (\<lambda>a q w v. ([7, 7, 7, 7], None))\<rparr>)
     0x17 [0, 0, 0, 2, 0, 0, 0, 1, 4, 0, 1, 0, 2]
     = Some (([4, 7, 7, 7, 7], None), [CallReadWriteMultipleRegisters 0 2 0 [0, 1, 0, 2]])"
  using put_byte_count [of "[7, 7, 7, 7]" 4]
  by (simp add: Handle_def readWriteMultipleRegisters_def Uint16_def index_def refuse_def)

text \<open>
  Claim C6.  For each of the function codes 1 to 4 with its callback bound and a request
  of 4 bytes: a quantity outside 1..2000 (codes 1 and 2) or 1..125 (codes 3 and 4) is
  answered with \<^verbatim>\<open>IllegalDataValue\<close>; a quantity in range whose sum with the address
  exceeds 0xFFFF is answered with \<^verbatim>\<open>IllegalDataAddress\<close>; in both cases no callback is
  invoked.
\<close>

theorem read_requests_rejected:
  assumes "length req = 4"
    and "Uint16 req 0 = Some address" and "Uint16 req 2 = Some quantity"
    and "code = 0x01 \<and> ReadCoils h \<noteq> None \<and> limit = 2000
       \<or> code = 0x02 \<and> ReadDiscreteInputs h \<noteq> None \<and> limit = 2000
       \<or> code = 0x03 \<and> ReadHoldingRegisters h \<noteq> None \<and> limit = 125
       \<or> code = 0x04 \<and> ReadInputRegisters h \<noteq> None \<and> limit = 125"
  shows "(quantity < 1 \<or> quantity > limit
            \<longrightarrow> Handle h code req = Some (([], Some ExIllegalDataValue), []))
       \<and> (1 \<le> quantity \<and> quantity \<le> limit \<and> unat address + unat quantity > 0xFFFF
            \<longrightarrow> Handle h code req = Some (([], Some ExIllegalDataAddress), []))"
  using assms
  by (auto simp: Handle_def readCoils_def readDiscreteInputs_def readHoldingRegisters_def
        readInputRegisters_def refuse_def linorder_not_less)

text \<open>
  The theorem at a request for 0 holding registers and at a request for 1 holding
  register at address 0xFFFF.
\<close>

theorem read_requests_rejected_witness:
  "length [0, 0, 0, 0 :: byte] = 4 \<and> Uint16 [0, 0, 0, 0] 2 = Some 0
   \<and> ReadHoldingRegisters registers_only \<noteq> None
   \<and> Handle registers_only 0x03 [0, 0, 0, 0] = Some (([], Some ExIllegalDataValue), [])
   \<and> Uint16 [0xFF, 0xFF, 0, 1] 0 = Some 0xFFFF \<and> Uint16 [0xFF, 0xFF, 0, 1] 2 = Some 1
   \<and> Handle registers_only 0x03 [0xFF, 0xFF, 0, 1] = Some (([], Some ExIllegalDataAddress), [])"
  using read_requests_rejected
      [where req = "[0, 0, 0, 0]" and address = 0 and quantity = 0 and code = "0x03"
         and h = registers_only and limit = 125]
    read_requests_rejected
      [where req = "[0xFF, 0xFF, 0, 1]" and address = "0xFFFF" and quantity = 1 and code = "0x03"
         and h = registers_only and limit = 125]
  by (simp add: Uint16_def registers_only_def)

section \<open>Facts about the client\<close>

text \<open>
  Claim C7.  A request with function code 0 or with a function code of 0x80 or more
  returns no response and the error \<^verbatim>\<open>IllegalFunction\<close>, leaves the client as it
  was, and has no effect: no dial, no encode, no registration, no transmit, no receive.
\<close>

theorem Request_rejects_code:
  assumes "code = 0 \<or> code \<ge> 0x80"
  shows "Request c w uid code req = Some (Returns (Inl (ErrException IllegalFunction)), c, [])"
  using assms by (simp add: Request_def)

text \<open>The theorem at the codes 0 and 0x80 on a client that has never connected.\<close>

theorem Request_rejects_code_witness:
  "((0 :: byte) = 0 \<or> (0 :: byte) \<ge> 0x80) \<and> ((0x80 :: byte) = 0 \<or> (0x80 :: byte) \<ge> 0x80)
   \<and> Request fresh_client quiet 0x11 0 [0, 0x6B, 0, 3]
       = Some (Returns (Inl (ErrException IllegalFunction)), fresh_client, [])
   \<and> Request fresh_client quiet 0x11 0x80 [0, 0x6B, 0, 3]
       = Some (Returns (Inl (ErrException IllegalFunction)), fresh_client, [])"
  using Request_rejects_code [of 0 fresh_client quiet "0x11" "[0, 0x6B, 0, 3]"]
    Request_rejects_code [of "0x80" fresh_client quiet "0x11" "[0, 0x6B, 0, 3]"]
  by simp

text \<open>
  Claim C9, at a failing input.  On the 8-byte frame with function code 0x80 the read of
  \<^verbatim>\<open>adu[8]\<close> is out of range and \<^verbatim>\<open>decode\<close> panics.
\<close>

theorem decode_reads_past_eight_bytes:
  "decode [0, 1, 0, 0, 0, 2, 0x11, 0x80] = None"
  by (simp add: decode_def index_def)

text \<open>
  Claim C10, at failing inputs.  With an 8-byte request as \<^verbatim>\<open>encode\<close> produces it,
  \<^verbatim>\<open>verify\<close> panics on a response of 2 bytes that repeats the transaction id and on
  an empty response, and so does the callback of the request that receives such a read.
\<close>

theorem verify_short_response:
  "encode \<lparr>transId = 0\<rparr> 0x11 3 [] = Some (Inr [0, 1, 0, 0, 0, 2, 0x11, 3], \<lparr>transId = 1\<rparr>)
   \<and> verify [0, 1, 0, 0, 0, 2, 0x11, 3] [0, 1] = None
   \<and> verify [0, 1, 0, 0, 0, 2, 0x11, 3] [] = None
   \<and> receive [0, 1, 0, 0, 0, 2, 0x11, 3] [0, 1] None = None"
  by (simp add: encode_eq receive_def verify_def differ2_def index_def)

section \<open>Facts about requests sharing a connection\<close>

lemma waiter_simps [simp]:
  "callback (waiter reqs k) = receive (reqs k)" "done_chan (waiter reqs k) = k"
  by (simp_all add: waiter_def)

lemma take_nth_eq: "take n xs = take n ys \<Longrightarrow> i < n \<Longrightarrow> xs ! i = ys ! i"
  by (metis nth_take)

lemma copy_whole:
  fixes req adu :: "byte list"
  assumes "length adu \<le> 260"
  shows "copy_at (req @ replicate (260 - length req) 0) 0 adu
           = (adu @ drop (length adu) (req @ replicate (260 - length req) 0), length adu)"
proof -
  have "min (length (req @ replicate (260 - length req) 0) - 0) (length adu) = length adu"
    using assms by simp
  thus ?thesis
    unfolding copy_at_def Let_def by simp
qed

lemma decode_returned:
  assumes "8 \<le> length adu" and "adu ! 7 \<ge> 0x80 \<longrightarrow> 9 \<le> length adu"
  shows "decode adu
           = Some (case returned adu of Inl e \<Rightarrow> Inl e | Inr d \<Rightarrow> Inr (adu ! 6, adu ! 7, d))"
  using assms by (auto simp: decode_def index_def returned_def)

text \<open>The receiver of a request quits on the echo of its request, with the response's content.\<close>

lemma receive_own:
  assumes "echo req res"
  shows "receive req res None = Some (Quit (returned res))"
proof -
  from assms have len: "8 \<le> length req" "8 \<le> length res" "length res \<le> 260"
    and t4: "take 4 res = take 4 req" and u: "res ! 6 = req ! 6"
    and ex: "res ! 7 \<ge> 0x80 \<longrightarrow> 9 \<le> length res"
    by (simp_all add: echo_def)
  have eq: "req ! 0 = res ! 0" "req ! 1 = res ! 1" "req ! 2 = res ! 2" "req ! 3 = res ! 3"
    using take_nth_eq [OF t4] by auto
  have v: "verify req res = Some (Inr ())"
    using len eq u by (auto simp: verify_def differ2_def index_def)
  show ?thesis
    using len ex by (simp add: receive_def v copy_whole decode_returned split: sum.split)
qed

text \<open>It keeps waiting on a frame with another transaction id.\<close>

lemma receive_other:
  assumes "2 \<le> length req" and "2 \<le> length res" and "take 2 req \<noteq> take 2 res"
  shows "receive req res None = Some Continue"
proof -
  have "req ! 0 \<noteq> res ! 0 \<or> req ! 1 \<noteq> res ! 1"
  proof (rule ccontr)
    assume "\<not> ?thesis"
    hence "take 2 req = take 2 res"
      using assms(1,2) by (intro nth_equalityI) (auto simp: less_Suc_eq numeral_2_eq_2)
    thus False
      using assms(3) by simp
  qed
  hence "verify req res = Some (Inl ErrMismatchedTransactionId)"
    using assms(1,2) by (auto simp: verify_def differ2_def index_def)
  thus ?thesis
    by (simp add: receive_def)
qed

text \<open>
  Seen from one call: after any number of frames with other transaction ids, the echo of
  the request ends the wait with the response's content.
\<close>

lemma await_own_response:
  assumes "\<forall>(adu, er) \<in> set others. er = None \<and> 2 \<le> length adu \<and> take 2 req \<noteq> take 2 adu"
    and "echo req res"
  shows "await req (others @ (res, None) # rest)
           = Some (Quit (returned res), map (\<lambda>(a, e). EvCallback a e) (others @ [(res, None)]))"
  using assms
proof (induction others)
  case Nil
  then show ?case
    by (simp add: receive_own)
next
  case (Cons x others)
  obtain adu er where x: "x = (adu, er)"
    by (cases x)
  have "2 \<le> length req"
    using Cons.prems(2) by (simp add: echo_def)
  hence "receive req adu er = Some Continue"
    using Cons.prems(1) x by (auto intro: receive_other)
  moreover have "await req (others @ (res, None) # rest)
           = Some (Quit (returned res), map (\<lambda>(a, e). EvCallback a e) (others @ [(res, None)]))"
    using Cons.prems by (intro Cons.IH) auto
  ultimately show ?case
    by (simp add: x)
qed

text \<open>
  So a call whose transmit succeeds and whose context is not cancelled returns the
  content of the echo of its request, whatever frames of other transactions come first.
\<close>

lemma Request_returns_own_response:
  assumes "code \<noteq> 0" and "code < 0x80"
    and "init c w = (Inr (con, f), c1, ev)"
    and "encode f uid code req = Some (Inr adu, f')"
    and "tx_err w = None" and "\<not> ctx_done w"
    and "inbound w = others @ (res, None) # rest"
    and "\<forall>(a, er) \<in> set others. er = None \<and> 2 \<le> length a \<and> take 2 adu \<noteq> take 2 a"
    and "echo adu res"
  shows "Request c w uid code req
           = Some (Returns (returned res), c1\<lparr>client_f := Some f'\<rparr>,
                   ev @ [EvEncode, EvRx, EvTx adu]
                      @ map (\<lambda>(a, e). EvCallback a e) (others @ [(res, None)]))"
proof -
  have "await adu (inbound w)
          = Some (Quit (returned res), map (\<lambda>(a, e). EvCallback a e) (others @ [(res, None)]))"
    unfolding assms(7) using assms(8,9) by (rule await_own_response)
  thus ?thesis
    using assms(1-6) by (simp add: Request_def linorder_not_le)
qed

lemma broadcast_others:
  assumes "\<forall>j \<in> set waiting. 2 \<le> length (reqs j) \<and> take 2 (reqs j) \<noteq> take 2 res"
    and "2 \<le> length res"
  shows "broadcast (map (waiter reqs) waiting) res None = Some (map (waiter reqs) waiting, [])"
  using assms by (induction waiting) (simp_all add: receive_other)

text \<open>
  One broadcast of the response to call \<open>k\<close>: every other waiting receiver stays, the
  receiver of \<open>k\<close> is removed and its channel closed with the response's content.
\<close>

lemma broadcast_deliver:
  assumes "distinct waiting" and "k \<in> set waiting"
    and "\<forall>j \<in> set waiting. echo (reqs j) (ress j)"
    and "\<forall>i \<in> set waiting. \<forall>j \<in> set waiting. i \<noteq> j \<longrightarrow> take 2 (reqs i) \<noteq> take 2 (reqs j)"
  shows "broadcast (map (waiter reqs) waiting) (ress k) None
           = Some (map (waiter reqs) (remove1 k waiting), [(k, returned (ress k))])"
  using assms
proof (induction waiting)
  case Nil
  then show ?case by simp
next
  case (Cons a waiting)
  have ek: "echo (reqs k) (ress k)"
    using Cons.prems by auto
  hence t2: "take 2 (ress k) = take 2 (reqs k)" and lk: "2 \<le> length (ress k)"
    by (auto simp: echo_def dest: arg_cong [where f = "take 2"])
  show ?case
  proof (cases "a = k")
    case True
    have "\<forall>j \<in> set waiting. 2 \<le> length (reqs j) \<and> take 2 (reqs j) \<noteq> take 2 (ress k)"
      using Cons.prems True t2 by (auto simp: echo_def)
    hence "broadcast (map (waiter reqs) waiting) (ress k) None
             = Some (map (waiter reqs) waiting, [])"
      using lk by (rule broadcast_others)
    thus ?thesis
      using True ek by (simp add: receive_own)
  next
    case False
    hence kin: "k \<in> set waiting"
      using Cons.prems by simp
    have "echo (reqs a) (ress a)"
      using Cons.prems by simp
    hence la: "2 \<le> length (reqs a)"
      by (simp add: echo_def)
    have "take 2 (reqs a) \<noteq> take 2 (ress k)"
      using Cons.prems False t2 by auto
    hence ra: "receive (reqs a) (ress k) None = Some Continue"
      using la lk by (intro receive_other)
    have "broadcast (map (waiter reqs) waiting) (ress k) None
           = Some (map (waiter reqs) (remove1 k waiting), [(k, returned (ress k))])"
      using Cons.prems kin by (intro Cons.IH) auto
    thus ?thesis
      using False ra by simp
  qed
qed

text \<open>The invariant of a causal schedule: the receiver list is the list of waiting calls.\<close>

lemma run_steps_causal:
  assumes "causal waiting ss" and "distinct waiting"
    and "\<forall>k \<in> set waiting \<union> set (registered ss). echo (reqs k) (ress k)"
    and "\<forall>i \<in> set waiting \<union> set (registered ss). \<forall>j \<in> set waiting \<union> set (registered ss).
           i \<noteq> j \<longrightarrow> take 2 (reqs i) \<noteq> take 2 (reqs j)"
  shows "run_steps reqs ress (map (waiter reqs) waiting, closed) ss
           = Some ([], closed @ map (\<lambda>k. (k, returned (ress k))) (delivered ss))
         \<and> mset (delivered ss) = mset waiting + mset (registered ss)"
  using assms
proof (induction ss arbitrary: waiting closed)
  case Nil
  then show ?case by simp
next
  case (Cons s ss)
  show ?case
  proof (cases s)
    case (Register k)
    have "run_steps reqs ress (map (waiter reqs) (k # waiting), closed) ss
             = Some ([], closed @ map (\<lambda>k. (k, returned (ress k))) (delivered ss))
           \<and> mset (delivered ss) = mset (k # waiting) + mset (registered ss)"
      using Cons.prems Register by (intro Cons.IH) auto
    thus ?thesis
      using Register by (simp add: rx_def)
  next
    case (Deliver k)
    have kin: "k \<in> set waiting" and c: "causal (remove1 k waiting) ss"
      using Cons.prems(1) Deliver by simp_all
    have b: "broadcast (map (waiter reqs) waiting) (ress k) None
         = Some (map (waiter reqs) (remove1 k waiting), [(k, returned (ress k))])"
      using Cons.prems kin by (intro broadcast_deliver) auto
    have sub: "set (remove1 k waiting) \<subseteq> set waiting"
      by (rule set_remove1_subset)
    have "run_steps reqs ress
            (map (waiter reqs) (remove1 k waiting), closed @ [(k, returned (ress k))]) ss
             = Some ([], (closed @ [(k, returned (ress k))])
                          @ map (\<lambda>k. (k, returned (ress k))) (delivered ss))
           \<and> mset (delivered ss) = mset (remove1 k waiting) + mset (registered ss)"
      using Cons.prems c Deliver sub by (intro Cons.IH) (auto simp: distinct_remove1)
    thus ?thesis
      using Deliver b kin by simp
  qed
qed

text \<open>
  In a causal schedule the response to a waiting call is delivered, and only responses to
  other calls of the schedule come before it.
\<close>

lemma delivered_split:
  assumes "causal waiting ss" and "k \<in> set waiting"
  shows "\<exists>others rest. delivered ss = others @ k # rest \<and> k \<notin> set others
           \<and> set others \<subseteq> set waiting \<union> set (registered ss)"
  using assms
proof (induction ss arbitrary: waiting)
  case Nil
  then show ?case by simp
next
  case (Cons s ss)
  show ?case
  proof (cases s)
    case (Register j)
    hence "causal (j # waiting) ss" and "k \<in> set (j # waiting)"
      using Cons.prems by simp_all
    from Cons.IH [OF this] obtain others rest where
      "delivered ss = others @ k # rest" "k \<notin> set others"
      "set others \<subseteq> set (j # waiting) \<union> set (registered ss)"
      by blast
    thus ?thesis
      using Register by auto
  next
    case (Deliver j)
    hence jin: "j \<in> set waiting" and c: "causal (remove1 j waiting) ss"
      using Cons.prems by simp_all
    show ?thesis
    proof (cases "j = k")
      case True
      have "delivered (s # ss) = [] @ k # delivered ss"
        using Deliver True by simp
      thus ?thesis
        by (metis empty_iff empty_set empty_subsetI)
    next
      case False
      hence "k \<in> set (remove1 j waiting)"
        using Cons.prems(2) by simp
      from Cons.IH [OF c this] obtain others rest where o:
        "delivered ss = others @ k # rest" "k \<notin> set others"
        "set others \<subseteq> set (remove1 j waiting) \<union> set (registered ss)"
        by blast
      have "set (remove1 j waiting) \<subseteq> set waiting"
        by (rule set_remove1_subset)
      hence "delivered (s # ss) = (j # others) @ k # rest \<and> k \<notin> set (j # others)
               \<and> set (j # others) \<subseteq> set waiting \<union> set (registered (s # ss))"
        using o Deliver False jin by auto
      thus ?thesis
        by blast
    qed
  qed
qed

lemma frames_after_split:
  assumes "causal waiting ss" and "k \<in> set (registered ss)"
  shows "\<exists>others rest. frames_after k ss = others @ k # rest \<and> k \<notin> set others
           \<and> set others \<subseteq> set waiting \<union> set (registered ss)"
  using assms
proof (induction ss arbitrary: waiting)
  case Nil
  then show ?case by simp
next
  case (Cons s ss)
  show ?case
  proof (cases s)
    case (Register j)
    hence c: "causal (j # waiting) ss"
      using Cons.prems by simp
    show ?thesis
    proof (cases "j = k")
      case True
      from delivered_split [OF c, of k] True obtain others rest where
        "delivered ss = others @ k # rest" "k \<notin> set others"
        "set others \<subseteq> set (j # waiting) \<union> set (registered ss)"
        by auto
      thus ?thesis
        using Register True by auto
    next
      case False
      hence "k \<in> set (registered ss)"
        using Cons.prems(2) Register by simp
      from Cons.IH [OF c this] obtain others rest where
        "frames_after k ss = others @ k # rest" "k \<notin> set others"
        "set others \<subseteq> set (j # waiting) \<union> set (registered ss)"
        by blast
      thus ?thesis
        using Register False by auto
    qed
  next
    case (Deliver j)
    hence c: "causal (remove1 j waiting) ss" and kin: "k \<in> set (registered ss)"
      using Cons.prems by simp_all
    from Cons.IH [OF c kin] obtain others rest where
      "frames_after k ss = others @ k # rest" "k \<notin> set others"
      "set others \<subseteq> set (remove1 j waiting) \<union> set (registered ss)"
      by blast
    moreover have "set (remove1 j waiting) \<subseteq> set waiting"
      by (rule set_remove1_subset)
    ultimately show ?thesis
      using Deliver by auto
  qed
qed

text \<open>
  Claim C8 as stated fails when two responses arrive in one read: the reader loop
  broadcasts the 26 bytes as one frame.  The call with transaction id 2 returns its
  response followed by the 15 bytes of the other response, and the call with transaction
  id 1 never sees a frame with its transaction id and waits for ever; on the connection
  the one broadcast closes the channel of the first and keeps the receiver of the second.
\<close>

theorem coalesced_responses:
  "Request (connected_client 1) coalesced 0x11 3 [0, 0x6B, 0, 1]
     = Some (Returns (Inr [2, 0xAB, 0xCD, 0, 1, 0, 0, 0, 9, 0x11, 3, 6, 2, 0x2B, 0, 0, 0, 0x64]),
             connected_client 2,
             [EvEncode, EvRx, EvTx [0, 2, 0, 0, 0, 6, 0x11, 3, 0, 0x6B, 0, 1],
              EvCallback [0, 2, 0, 0, 0, 5, 0x11, 3, 2, 0xAB, 0xCD,
                          0, 1, 0, 0, 0, 9, 0x11, 3, 6, 2, 0x2B, 0, 0, 0, 0x64] None])
   \<and> returned (two_responses 1) = Inr [2, 0xAB, 0xCD]
   \<and> Request (connected_client 0) coalesced 0x11 3 [0, 0x6B, 0, 3]
     = Some (Blocks, connected_client 1,
             [EvEncode, EvRx, EvTx [0, 1, 0, 0, 0, 6, 0x11, 3, 0, 0x6B, 0, 3],
              EvCallback [0, 2, 0, 0, 0, 5, 0x11, 3, 2, 0xAB, 0xCD,
                          0, 1, 0, 0, 0, 9, 0x11, 3, 6, 2, 0x2B, 0, 0, 0, 0x64] None])
   \<and> broadcast (rx (rx [] (waiter two_requests 0)) (waiter two_requests 1))
         [0, 2, 0, 0, 0, 5, 0x11, 3, 2, 0xAB, 0xCD,
          0, 1, 0, 0, 0, 9, 0x11, 3, 6, 2, 0x2B, 0, 0, 0, 0x64] None
     = Some ([waiter two_requests 0],
             [(1, Inr [2, 0xAB, 0xCD, 0, 1, 0, 0, 0, 9, 0x11, 3, 6, 2, 0x2B, 0, 0, 0, 0x64])])"
  by (simp add: Request_def init_def connected_client_def coalesced_def encode_eq
      receive_def verify_def differ2_def index_def decode_def copy_at_def
      returned_def two_responses_def two_requests_def rx_def)

text \<open>
  Claim C8, as amended.  Take calls with valid function codes on a ready connection
  whose requests carry pairwise distinct transaction ids, and responses that echo them and
  arrive whole, one per read, in any order of a causal schedule; transmits succeed and no
  context is cancelled.  Then every call returns exactly the content of the response that
  carries its transaction id, and on the connection every delivery closes the channel of
  exactly that call, no step panics and no receiver is left on the list.
\<close>

theorem concurrent_requests_paired:
  assumes "causal [] sched"
    and "\<forall>k \<in> set (registered sched). code k \<noteq> 0 \<and> code k < 0x80"
    and "\<forall>k \<in> set (registered sched).
           client_c (c k) = Some (Network True) \<and> client_f (c k) = Some (f k)"
    and "\<forall>k \<in> set (registered sched).
           encode (f k) (uid k) (code k) (body k) = Some (Inr (reqs k), f' k)"
    and "\<forall>k \<in> set (registered sched). echo (reqs k) (ress k)"
    and "\<forall>i \<in> set (registered sched). \<forall>j \<in> set (registered sched).
           i \<noteq> j \<longrightarrow> take 2 (reqs i) \<noteq> take 2 (reqs j)"
  shows "(\<forall>k \<in> set (registered sched).
            \<exists>evs. Request (c k) (seen sched ress k) (uid k) (code k) (body k)
                    = Some (Returns (returned (ress k)), (c k)\<lparr>client_f := Some (f' k)\<rparr>, evs))
         \<and> run_steps reqs ress ([], []) sched
             = Some ([], map (\<lambda>k. (k, returned (ress k))) (delivered sched))"
proof (intro conjI ballI)
  fix k
  assume k: "k \<in> set (registered sched)"
  from frames_after_split [OF assms(1) k] obtain others rest where
    fa: "frames_after k sched = others @ k # rest" and nk: "k \<notin> set others"
    and sub: "set others \<subseteq> set (registered sched)"
    by auto
  have ek: "echo (reqs k) (ress k)"
    using assms(5) k by simp
  have oth: "\<forall>(a, er) \<in> set (map (\<lambda>j. (ress j, None :: error option)) others).
               er = None \<and> 2 \<le> length a \<and> take 2 (reqs k) \<noteq> take 2 a"
  proof (clarsimp)
    fix j
    assume j: "j \<in> set others"
    hence jr: "j \<in> set (registered sched)" and jk: "j \<noteq> k"
      using sub nk by auto
    hence "echo (reqs j) (ress j)"
      using assms(5) by simp
    hence "take 2 (ress j) = take 2 (reqs j)" and "2 \<le> length (ress j)"
      by (auto simp: echo_def dest: arg_cong [where f = "take 2"])
    moreover have "take 2 (reqs k) \<noteq> take 2 (reqs j)"
      using assms(6) k jr jk by auto
    ultimately show "2 \<le> length (ress j) \<and> take 2 (reqs k) \<noteq> take 2 (ress j)"
      by simp
  qed
  have init: "init (c k) (seen sched ress k) = (Inr (Network True, f k), c k, [])"
    using assms(3) k by (simp add: init_def)
  have inb: "inbound (seen sched ress k)
               = map (\<lambda>j. (ress j, None)) others @ (ress k, None) # map (\<lambda>j. (ress j, None)) rest"
    by (simp add: seen_def fa)
  have "Request (c k) (seen sched ress k) (uid k) (code k) (body k)
          = Some (Returns (returned (ress k)), (c k)\<lparr>client_f := Some (f' k)\<rparr>,
                  [] @ [EvEncode, EvRx, EvTx (reqs k)]
                     @ map (\<lambda>(a, e). EvCallback a e)
                         (map (\<lambda>j. (ress j, None)) others @ [(ress k, None)]))"
    using assms(2,4) k
    by (intro Request_returns_own_response [OF _ _ init _ _ _ inb oth ek])
       (simp_all add: seen_def)
  thus "\<exists>evs. Request (c k) (seen sched ress k) (uid k) (code k) (body k)
                = Some (Returns (returned (ress k)), (c k)\<lparr>client_f := Some (f' k)\<rparr>, evs)"
    by blast
next
  show "run_steps reqs ress ([], []) sched
          = Some ([], map (\<lambda>k. (k, returned (ress k))) (delivered sched))"
    using run_steps_causal [of "[]" sched reqs ress "[]"] assms(1,5,6) by simp
qed

text \<open>
  The theorem at two calls with the transaction ids 1 and 2 whose responses arrive in the
  opposite order, each in a read of its own.
\<close>

theorem concurrent_requests_paired_witness:
  "causal [] [Register 0, Register 1, Deliver 1, Deliver 0]
   \<and> encode \<lparr>transId = 0\<rparr> 0x11 3 (two_bodies 0) = Some (Inr (two_requests 0), \<lparr>transId = 1\<rparr>)
   \<and> encode \<lparr>transId = 1\<rparr> 0x11 3 (two_bodies 1) = Some (Inr (two_requests 1), \<lparr>transId = 2\<rparr>)
   \<and> echo (two_requests 0) (two_responses 0) \<and> echo (two_requests 1) (two_responses 1)
   \<and> take 2 (two_requests 0) \<noteq> take 2 (two_requests 1)
   \<and> (\<exists>evs. Request (connected_client 0)
               (seen [Register 0, Register 1, Deliver 1, Deliver 0] two_responses 0)
               0x11 3 (two_bodies 0)
             = Some (Returns (Inr [6, 2, 0x2B, 0, 0, 0, 0x64]), connected_client 1, evs))
   \<and> (\<exists>evs. Request (connected_client 1)
               (seen [Register 0, Register 1, Deliver 1, Deliver 0] two_responses 1)
               0x11 3 (two_bodies 1)
             = Some (Returns (Inr [2, 0xAB, 0xCD]), connected_client 2, evs))
   \<and> run_steps two_requests two_responses ([], []) [Register 0, Register 1, Deliver 1, Deliver 0]
       = Some ([], [(1, Inr [2, 0xAB, 0xCD]), (0, Inr [6, 2, 0x2B, 0, 0, 0, 0x64])])"
proof -
  have e0: "encode \<lparr>transId = 0\<rparr> 0x11 3 (two_bodies 0) = Some (Inr (two_requests 0), \<lparr>transId = 1\<rparr>)"
    by (simp add: encode_eq two_bodies_def two_requests_def)
  have e1: "encode \<lparr>transId = 1\<rparr> 0x11 3 (two_bodies 1) = Some (Inr (two_requests 1), \<lparr>transId = 2\<rparr>)"
    by (simp add: encode_eq two_bodies_def two_requests_def)
  have ec: "echo (two_requests 0) (two_responses 0)" "echo (two_requests 1) (two_responses 1)"
    "take 2 (two_requests 0) \<noteq> take 2 (two_requests 1)"
    by (simp_all add: echo_def two_requests_def two_responses_def)
  have r: "returned (two_responses 0) = Inr [6, 2, 0x2B, 0, 0, 0, 0x64]"
    "returned (two_responses 1) = Inr [2, 0xAB, 0xCD]"
    by (simp_all add: returned_def two_responses_def)
  have cl: "(connected_client 0)\<lparr>client_f := Some \<lparr>transId = 1\<rparr>\<rparr> = connected_client 1"
    "(connected_client 1)\<lparr>client_f := Some \<lparr>transId = 2\<rparr>\<rparr> = connected_client 2"
    by (simp_all add: connected_client_def)
  have r': "returned (two_responses (Suc 0)) = Inr [2, 0xAB, 0xCD]"
    "(connected_client (Suc 0))\<lparr>client_f := Some \<lparr>transId = 2\<rparr>\<rparr> = connected_client 2"
    using r(2) cl(2) by simp_all
  have h1: "causal [] [Register 0, Register 1, Deliver 1, Deliver 0]"
    by simp
  have h2: "\<forall>k \<in> set (registered [Register 0, Register 1, Deliver 1, Deliver 0]).
              (3 :: byte) \<noteq> 0 \<and> (3 :: byte) < 0x80"
    by simp
  have h3: "\<forall>k \<in> set (registered [Register 0, Register 1, Deliver 1, Deliver 0]).
              client_c (connected_client k) = Some (Network True)
              \<and> client_f (connected_client k) = Some \<lparr>transId = of_nat k\<rparr>"
    by (simp add: connected_client_def)
  have h4: "\<forall>k \<in> set (registered [Register 0, Register 1, Deliver 1, Deliver 0]).
              encode \<lparr>transId = of_nat k\<rparr> 0x11 3 (two_bodies k)
                = Some (Inr (two_requests k), \<lparr>transId = of_nat k + 1\<rparr>)"
    using e0 e1 by simp
  have h5: "\<forall>k \<in> set (registered [Register 0, Register 1, Deliver 1, Deliver 0]).
              echo (two_requests k) (two_responses k)"
    using ec by simp
  have h6: "\<forall>i \<in> set (registered [Register 0, Register 1, Deliver 1, Deliver 0]).
            \<forall>j \<in> set (registered [Register 0, Register 1, Deliver 1, Deliver 0]).
              i \<noteq> j \<longrightarrow> take 2 (two_requests i) \<noteq> take 2 (two_requests j)"
    using ec(3) by auto
  note T = concurrent_requests_paired
    [of "[Register 0, Register 1, Deliver 1, Deliver 0]" "\<lambda>k. 3" connected_client
        "\<lambda>k. \<lparr>transId = of_nat k\<rparr>" "\<lambda>k. 0x11" two_bodies two_requests
        "\<lambda>k. \<lparr>transId = of_nat k + 1\<rparr>" two_responses, OF h1 h2 h3 h4 h5 h6]
  from T have A: "\<And>k. k \<in> set (registered [Register 0, Register 1, Deliver 1, Deliver 0]) \<Longrightarrow>
      \<exists>evs. Request (connected_client k)
               (seen [Register 0, Register 1, Deliver 1, Deliver 0] two_responses k)
               0x11 3 (two_bodies k)
             = Some (Returns (returned (two_responses k)),
                     (connected_client k)\<lparr>client_f := Some \<lparr>transId = of_nat k + 1\<rparr>\<rparr>, evs)"
    by blast
  have A0: "\<exists>evs. Request (connected_client 0)
               (seen [Register 0, Register 1, Deliver 1, Deliver 0] two_responses 0)
               0x11 3 (two_bodies 0)
             = Some (Returns (Inr [6, 2, 0x2B, 0, 0, 0, 0x64]), connected_client 1, evs)"
    using A [of 0] by (simp add: r cl)
  have A1: "\<exists>evs. Request (connected_client 1)
               (seen [Register 0, Register 1, Deliver 1, Deliver 0] two_responses 1)
               0x11 3 (two_bodies 1)
             = Some (Returns (Inr [2, 0xAB, 0xCD]), connected_client 2, evs)"
    using A [of 1] by (simp add: r')
  have rhs: "map (\<lambda>k. (k, returned (two_responses k)))
               (delivered [Register 0, Register 1, Deliver 1, Deliver 0])
             = [(1, Inr [2, 0xAB, 0xCD]), (0, Inr [6, 2, 0x2B, 0, 0, 0, 0x64])]"
    by (simp add: r r')
  have B: "run_steps two_requests two_responses ([], [])
                    [Register 0, Register 1, Deliver 1, Deliver 0]
       = Some ([], [(1, Inr [2, 0xAB, 0xCD]), (0, Inr [6, 2, 0x2B, 0, 0, 0, 0x64])])"
    using T [THEN conjunct2] unfolding rhs .
  show ?thesis
    using h1 e0 e1 ec A0 A1 B by blast
qed

end
